theory Spec2Isabelle
  imports Main "HOL-Library.Sublist"
begin

section \<open>Steamworks wrapper: the subscription orchestration layer\<close>

text \<open>
  A shallow embedding of \<^verbatim>\<open>src/app/utils/steam/steamworks/wrapper.py\<close>.

  Time is counted in whole milliseconds: \<^verbatim>\<open>time()\<close> reads a clock that only
  \<^verbatim>\<open>sleep\<close> advances, by exactly the duration asked for. The constants of the source
  (seconds) are written in milliseconds.

  The native SDK and the poll thread are an environment: a record of oracles that says
  which SDK calls raise, when the SDK reports loaded, and what the poll thread does
  while the main flow performs each of its actions.
\<close>

subsection \<open>Timing constants\<close>

definition RESUBSCRIBE_STAGE_WAIT :: nat where
  "RESUBSCRIBE_STAGE_WAIT = 1000"

definition OPERATION_INTERVAL :: nat where
  "OPERATION_INTERVAL = 100"

definition STEAMWORKS_TIMEOUT :: nat where
  "STEAMWORKS_TIMEOUT = 30000"

subsection \<open>Data\<close>

datatype error = ValueError | AttributeError | IndexError | SdkError

text \<open>
  A callback payload: the object the SDK hands to a handler as \<^verbatim>\<open>args[0]\<close>. A field
  that the object does not have is \<open>None\<close>; \<open>app_dependencies\<close> is what the method
  \<^verbatim>\<open>get_app_dependencies_list()\<close> returns when the object has it.
\<close>

record payload =
  publishedFileId :: "int option"
  result :: "int option"
  app_dependencies :: "int list option"

datatype thread = Alive | Finished

text \<open>
  The attributes of \<^verbatim>\<open>SteamworksInterface\<close>. \<^verbatim>\<open>end_callbacks\<close> and
  \<^verbatim>\<open>multiple_queries\<close> are only assigned when callbacks are enabled, and
  \<^verbatim>\<open>steamworks_thread\<close> only when the thread is started: an attribute that was never
  assigned is \<open>None\<close>, and reading it raises \<open>AttributeError\<close>.
\<close>

record session =
  callbacks :: bool
  callbacks_count :: int
  callbacks_total :: "int option"
  end_callbacks :: "bool option"
  multiple_queries :: "bool option"
  get_app_deps_query_result :: "int \<rightharpoonup> int list"
  steam_not_running :: bool
  steamworks_thread :: "thread option"

text \<open>The calls of the main flow that the environment can see, in the order issued.\<close>

datatype event =
    Initialize
  | Unload
  | SetItemUnsubscribedCallback
  | SetItemSubscribedCallback
  | SetGetAppDependenciesResultCallback
  | UnsubscribeItem int
  | SubscribeItem int
  | DownloadItem int
  | GetAppDependencies int
  | Sleep nat
  | ThreadJoin

text \<open>The kinds of SDK notification, and the handlers this layer binds to them.\<close>

datatype cb_kind = ItemUnsubscribed | ItemSubscribed | ItemDownloaded | AppDependenciesResult

datatype handler = GenericCallback string | DownloadCallback | AppDependenciesCallback

text \<open>What a handler writes to the log.\<close>

datatype log_line =
    LogCallback string int "int option"
  | LogCallbackFired string
  | LogDownloadInitiated int
  | LogDownloadResult int int
  | LogDownloadParseFailed error
  | LogAppDependencies int int "int list"

text \<open>
  One iteration of the poll thread's loop: either \<^verbatim>\<open>run_callbacks()\<close> dispatches a
  batch of notifications, each with the positional arguments given to the handler, or
  the call raises and the thread dies.
\<close>

datatype round = Pump "(cb_kind \<times> payload list) list" | Crash

record env =
  init_raises :: bool
  call_raises :: "event list \<Rightarrow> bool"
  sdk_loaded :: "nat \<Rightarrow> bool"
  schedule :: "nat \<Rightarrow> round list"

text \<open>
  The process: the session, the clock, the main flow's calls so far, the handlers
  registered with the SDK, and how many times the poll thread called
  \<^verbatim>\<open>run_callbacks()\<close>.
\<close>

record world =
  ifc :: session
  clock :: nat
  trace :: "event list"
  registered :: "cb_kind \<rightharpoonup> handler"
  pumps :: nat

subsection \<open>Callback handlers\<close>

text \<open>
  \<^verbatim>\<open>SteamworksInterface._cb_app_dependencies_result_callback\<close>. The counter is
  incremented first; every later read of \<^verbatim>\<open>args[0]\<close> or one of its fields is
  unguarded, so the handler returns the session as the raise left it.
\<close>

definition cb_app_dependencies_result_callback ::
  "payload list \<Rightarrow> session \<Rightarrow> session \<times> log_line list \<times> error option" where
  "cb_app_dependencies_result_callback args s =
     (let s1 = s\<lparr>callbacks_count := callbacks_count s + 1\<rparr> in
      case args of
        [] \<Rightarrow> (s1, [], Some IndexError)
      | p # _ \<Rightarrow>
          (case result p of
             None \<Rightarrow> (s1, [], Some AttributeError)
           | Some r \<Rightarrow>
               (case publishedFileId p of
                  None \<Rightarrow> (s1, [], Some AttributeError)
                | Some pfid \<Rightarrow>
                    (case app_dependencies p of
                       None \<Rightarrow> (s1, [], Some AttributeError)
                     | Some deps \<Rightarrow>
                         (let s2 = (if length deps > 0
                                    then s1\<lparr>get_app_deps_query_result :=
                                              (get_app_deps_query_result s1)(pfid \<mapsto> deps)\<rparr>
                                    else s1);
                              l = [LogAppDependencies r pfid deps] in
                          case multiple_queries s2 of
                            None \<Rightarrow> (s2, l, Some AttributeError)
                          | Some mq \<Rightarrow>
                              if mq \<and> Some (callbacks_count s2) = callbacks_total s2
                              then (s2\<lparr>end_callbacks := Some True\<rparr>, l, None)
                              else if \<not> mq
                              then (s2\<lparr>end_callbacks := Some True\<rparr>, l, None)
                              else (s2, l, None))))))"

text \<open>
  The closure of \<^verbatim>\<open>SteamworksSubscriptionHandler._create_callback\<close>: it counts, then
  logs inside a \<^verbatim>\<open>try\<close> that catches every exception.
\<close>

definition create_callback ::
  "string \<Rightarrow> payload list \<Rightarrow> session \<Rightarrow> session \<times> log_line list \<times> error option" where
  "create_callback operation args s =
     (let s1 = s\<lparr>callbacks_count := callbacks_count s + 1\<rparr> in
      case args of
        [] \<Rightarrow> (s1, [LogCallbackFired operation], None)
      | p # _ \<Rightarrow>
          (case publishedFileId p of
             None \<Rightarrow> (s1, [LogCallbackFired operation], None)
           | Some pfid \<Rightarrow> (s1, [LogCallback operation pfid (result p)], None)))"

text \<open>
  The closure of \<^verbatim>\<open>_create_download_callback\<close>: it only logs, and catches
  \<open>IndexError\<close> and \<open>AttributeError\<close>.
\<close>

definition create_download_callback ::
  "payload list \<Rightarrow> session \<Rightarrow> session \<times> log_line list \<times> error option" where
  "create_download_callback args s =
     (case args of
        [] \<Rightarrow> (s, [LogDownloadParseFailed IndexError], None)
      | p # _ \<Rightarrow>
          (case result p of
             None \<Rightarrow> (s, [LogDownloadParseFailed AttributeError], None)
           | Some r \<Rightarrow>
               (case publishedFileId p of
                  None \<Rightarrow> (s, [LogDownloadParseFailed AttributeError], None)
                | Some pfid \<Rightarrow>
                    if r = 1 then (s, [LogDownloadInitiated pfid], None)
                    else (s, [LogDownloadResult r pfid], None))))"

fun invoke :: "handler \<Rightarrow> payload list \<Rightarrow> session \<Rightarrow> session \<times> log_line list \<times> error option" where
  "invoke (GenericCallback operation) args s = create_callback operation args s"
| "invoke DownloadCallback args s = create_download_callback args s"
| "invoke AppDependenciesCallback args s = cb_app_dependencies_result_callback args s"

subsection \<open>The poll thread\<close>

text \<open>
  \<^verbatim>\<open>run_callbacks()\<close> hands each notification to the handler registered for its kind.
  A handler runs behind the SDK's foreign-function boundary: what it raises does not
  reach the loop, and the session stays as the handler left it.
\<close>

fun dispatch :: "(cb_kind \<times> payload list) list \<Rightarrow> world \<Rightarrow> world" where
  "dispatch [] w = w"
| "dispatch ((k, args) # ds) w =
     (case registered w k of
        None \<Rightarrow> dispatch ds w
      | Some h \<Rightarrow> dispatch ds (w\<lparr>ifc := fst (invoke h args (ifc w))\<rparr>))"

text \<open>
  \<^verbatim>\<open>SteamworksInterface._callbacks\<close>, for the loop iterations the environment lets the
  thread make: \<^verbatim>\<open>while not self.end_callbacks: run_callbacks(); sleep(0.1)\<close>. The
  thread's first loop, which spins until the SDK reports loaded, is part of the
  schedule: the environment gives the thread no iteration before that.
\<close>

fun callbacks_loop :: "round list \<Rightarrow> world \<Rightarrow> world" where
  "callbacks_loop [] w = w"
| "callbacks_loop (r # rs) w =
     (if steamworks_thread (ifc w) \<noteq> Some Alive then w
      else if end_callbacks (ifc w) \<noteq> Some False
      then w\<lparr>ifc := (ifc w)\<lparr>steamworks_thread := Some Finished\<rparr>\<rparr>
      else (case r of
              Crash \<Rightarrow> w\<lparr>ifc := (ifc w)\<lparr>steamworks_thread := Some Finished\<rparr>\<rparr>
            | Pump ds \<Rightarrow> callbacks_loop rs (dispatch ds (w\<lparr>pumps := pumps w + 1\<rparr>))))"

subsection \<open>Actions of the main flow\<close>

fun duration :: "event \<Rightarrow> nat" where
  "duration (Sleep d) = d"
| "duration _ = 0"

text \<open>
  The main flow performs one action (an SDK call, a sleep or a join): the action is
  recorded, the clock advances by its duration, and the poll thread makes the loop
  iterations the environment schedules for this action.
\<close>

definition act :: "env \<Rightarrow> event \<Rightarrow> world \<Rightarrow> world" where
  "act e ev w =
     (callbacks_loop (schedule e (length (trace w))) w)
       \<lparr>trace := trace w @ [ev], clock := clock w + duration ev\<rparr>"

definition sleep :: "env \<Rightarrow> nat \<Rightarrow> world \<Rightarrow> world" where
  "sleep e d w = act e (Sleep d) w"

text \<open>An SDK call: it is issued, and the environment says whether it raises.\<close>

definition sdk_call :: "env \<Rightarrow> event \<Rightarrow> world \<Rightarrow> world \<times> error option" where
  "sdk_call e ev w =
     (let w1 = act e ev w in
      (w1, if call_raises e (trace w1) then Some SdkError else None))"

subsection \<open>Opening a session\<close>

text \<open>
  \<^verbatim>\<open>SteamworksInterface.__init__\<close>. \<^verbatim>\<open>if self.callbacks_total\<close> is Python truthiness:
  \<^verbatim>\<open>None\<close> and \<open>0\<close> are false. The only fallible call is
  \<^verbatim>\<open>steamworks.initialize()\<close>, inside a \<^verbatim>\<open>try\<close> that catches every exception.
\<close>

definition SteamworksInterface_init :: "env \<Rightarrow> bool \<Rightarrow> int option \<Rightarrow> world" where
  "SteamworksInterface_init e cb n =
     (let s0 = \<lparr>callbacks = cb,
                callbacks_count = 0,
                callbacks_total = n,
                end_callbacks = (if cb then Some False else None),
                multiple_queries =
                  (if cb then Some (n \<noteq> None \<and> n \<noteq> Some 0) else None),
                get_app_deps_query_result = Map.empty,
                steam_not_running = False,
                steamworks_thread = None\<rparr>;
          s1 = (if init_raises e then s0\<lparr>steam_not_running := True\<rparr> else s0);
          s2 = (if \<not> steam_not_running s1
                then (if callbacks s1 then s1\<lparr>steamworks_thread := Some Alive\<rparr> else s1)
                else s1)
      in \<lparr>ifc = s2, clock = 0, trace = [Initialize], registered = Map.empty, pumps = 0\<rparr>)"

subsection \<open>Constructing the subscription handler\<close>

datatype pfid_arg = Single int | Many "int list"

record subscription_handler =
  action :: string
  pfid_or_pfids :: "int list"
  libs :: "string option"

definition valid_actions :: "string set" where
  "valid_actions = {''subscribe'', ''unsubscribe'', ''resubscribe''}"

text \<open>\<^verbatim>\<open>SteamworksSubscriptionHandler.__init__\<close>: no world goes in and none comes out.\<close>

definition SteamworksSubscriptionHandler_init ::
  "string \<Rightarrow> pfid_arg \<Rightarrow> string option \<Rightarrow> error + subscription_handler" where
  "SteamworksSubscriptionHandler_init a p l =
     (if a \<notin> valid_actions then Inl ValueError
      else Inr \<lparr>action = a,
                pfid_or_pfids = (case p of Many ps \<Rightarrow> ps | Single i \<Rightarrow> [i]),
                libs = l\<rparr>)"

subsection \<open>The completion waiter\<close>

text \<open>
  The loop of \<^verbatim>\<open>SteamworksInterface._wait_for_callbacks\<close>. The condition
  \<^verbatim>\<open>not self.end_callbacks and self.steamworks_thread.is_alive()\<close> reads the thread only
  when the flag is unset.
\<close>

function wait_loop :: "env \<Rightarrow> nat \<Rightarrow> int \<Rightarrow> world \<Rightarrow> world \<times> (error + bool)" where
  "wait_loop e start_time timeout w =
     (case end_callbacks (ifc w) of
        None \<Rightarrow> (w, Inl AttributeError)
      | Some True \<Rightarrow> (w, Inr True)
      | Some False \<Rightarrow>
          (case steamworks_thread (ifc w) of
             None \<Rightarrow> (w, Inl AttributeError)
           | Some Finished \<Rightarrow> (w, Inr True)
           | Some Alive \<Rightarrow>
               if int (clock w) - int start_time \<ge> timeout
               then (w\<lparr>ifc := (ifc w)\<lparr>end_callbacks := Some True\<rparr>\<rparr>, Inr False)
               else wait_loop e start_time timeout (sleep e OPERATION_INTERVAL w)))"
  by pat_completeness auto
termination
  by (relation "measure (\<lambda>(e, st, t, w). nat (t + int st - int (clock w)))")
     (auto simp: sleep_def act_def OPERATION_INTERVAL_def)

declare wait_loop.simps [simp del]

definition wait_for_callbacks :: "env \<Rightarrow> int \<Rightarrow> world \<Rightarrow> world \<times> (error + bool)" where
  "wait_for_callbacks e timeout w = wait_loop e (clock w) timeout w"

subsection \<open>Joining the poll thread\<close>



text \<open>\<^verbatim>\<open>steamworks_thread.join(timeout=5)\<close>: it returns after the timeout at the latest.\<close>

definition thread_join_timeout :: "env \<Rightarrow> nat \<Rightarrow> world \<Rightarrow> world" where
  "thread_join_timeout e d w =
     (let w1 = act e ThreadJoin w in
      if steamworks_thread (ifc w1) = Some Alive
      then (if end_callbacks (ifc w1) = Some True
            then w1\<lparr>ifc := (ifc w1)\<lparr>steamworks_thread := Some Finished\<rparr>\<rparr>
            else w1\<lparr>clock := clock w1 + d\<rparr>)
      else w1)"

subsection \<open>Registering callbacks and queueing operations\<close>

definition set_callback ::
  "env \<Rightarrow> event \<Rightarrow> cb_kind \<Rightarrow> handler \<Rightarrow> world \<Rightarrow> world \<times> error option" where
  "set_callback e ev k h w =
     (case sdk_call e ev w of
        (w1, Some err) \<Rightarrow> (w1, Some err)
      | (w1, None) \<Rightarrow> (w1\<lparr>registered := (registered w1)(k \<mapsto> h)\<rparr>, None))"

text \<open>\<^verbatim>\<open>SteamworksSubscriptionHandler._register_callbacks\<close>.\<close>

definition register_callbacks :: "env \<Rightarrow> string set \<Rightarrow> world \<Rightarrow> world \<times> error option" where
  "register_callbacks e actions w =
     (case (if ''unsubscribe'' \<in> actions
            then set_callback e SetItemUnsubscribedCallback ItemUnsubscribed
                   (GenericCallback ''unsubscribe'') w
            else (w, None)) of
        (w1, Some err) \<Rightarrow> (w1, Some err)
      | (w1, None) \<Rightarrow>
          (if ''subscribe'' \<in> actions
           then set_callback e SetItemSubscribedCallback ItemSubscribed
                  (GenericCallback ''subscribe'') w1
           else (w1, None)))"

text \<open>
  The loop of \<^verbatim>\<open>_queue_operations\<close>: \<open>n\<close> is \<^verbatim>\<open>len(pfids)\<close> and \<open>idx\<close> counts from 1.
  An operation that is not in \<^verbatim>\<open>operation_map\<close> issues nothing. An SDK call that
  raises ends the loop: nothing here catches it.
\<close>

definition operation_map :: "string \<rightharpoonup> (int \<Rightarrow> event)" where
  "operation_map = [''subscribe'' \<mapsto> SubscribeItem, ''unsubscribe'' \<mapsto> UnsubscribeItem]"

fun queue_operations_loop ::
  "env \<Rightarrow> string \<Rightarrow> nat \<Rightarrow> nat \<Rightarrow> int list \<Rightarrow> world \<Rightarrow> world \<times> error option" where
  "queue_operations_loop e operation n idx [] w = (w, None)"
| "queue_operations_loop e operation n idx (pfid # rest) w =
     (case (case operation_map operation of
              Some f \<Rightarrow> sdk_call e (f pfid) w
            | None \<Rightarrow> (w, None)) of
        (w1, Some err) \<Rightarrow> (w1, Some err)
      | (w1, None) \<Rightarrow>
          queue_operations_loop e operation n (idx + 1) rest
            (if idx < n then sleep e OPERATION_INTERVAL w1 else w1))"

definition queue_operations :: "env \<Rightarrow> string \<Rightarrow> int list \<Rightarrow> world \<Rightarrow> world \<times> error option" where
  "queue_operations e operation pfids w =
     queue_operations_loop e operation (length pfids) 1 pfids w"

text \<open>
  Stage 5 of \<^verbatim>\<open>_handle_resubscribe\<close>: each \<^verbatim>\<open>DownloadItem\<close> call sits in its own
  \<^verbatim>\<open>try\<close>, so a call that raises is logged and the loop goes on.
\<close>

fun download_loop :: "env \<Rightarrow> int list \<Rightarrow> world \<Rightarrow> world" where
  "download_loop e [] w = w"
| "download_loop e (pfid # rest) w =
     (case sdk_call e (DownloadItem pfid) w of
        (w1, Some err) \<Rightarrow> download_loop e rest w1
      | (w1, None) \<Rightarrow>
          download_loop e rest
            (w1\<lparr>registered := (registered w1)(ItemDownloaded \<mapsto> DownloadCallback)\<rparr>))"

subsection \<open>The three actions\<close>

definition handle_resubscribe ::
  "env \<Rightarrow> subscription_handler \<Rightarrow> world \<Rightarrow> world \<times> error option" where
  "handle_resubscribe e h w =
     (case register_callbacks e {''unsubscribe'', ''subscribe''} w of
        (w1, Some err) \<Rightarrow> (w1, Some err)
      | (w1, None) \<Rightarrow>
          (case queue_operations e ''unsubscribe'' (pfid_or_pfids h) w1 of
             (w2, Some err) \<Rightarrow> (w2, Some err)
           | (w2, None) \<Rightarrow>
               (case queue_operations e ''subscribe'' (pfid_or_pfids h)
                       (sleep e RESUBSCRIBE_STAGE_WAIT w2) of
                  (w3, Some err) \<Rightarrow> (w3, Some err)
                | (w3, None) \<Rightarrow>
                    (download_loop e (pfid_or_pfids h)
                       (sleep e RESUBSCRIBE_STAGE_WAIT w3), None))))"

definition handle_subscribe ::
  "env \<Rightarrow> subscription_handler \<Rightarrow> world \<Rightarrow> world \<times> error option" where
  "handle_subscribe e h w =
     (case register_callbacks e {''subscribe''} w of
        (w1, Some err) \<Rightarrow> (w1, Some err)
      | (w1, None) \<Rightarrow> queue_operations e ''subscribe'' (pfid_or_pfids h) w1)"

definition handle_unsubscribe ::
  "env \<Rightarrow> subscription_handler \<Rightarrow> world \<Rightarrow> world \<times> error option" where
  "handle_unsubscribe e h w =
     (case register_callbacks e {''unsubscribe''} w of
        (w1, Some err) \<Rightarrow> (w1, Some err)
      | (w1, None) \<Rightarrow> queue_operations e ''unsubscribe'' (pfid_or_pfids h) w1)"

subsection \<open>Running the subscription handler\<close>

datatype outcome =
    AbortedUnavailable
  | AbortedLoadTimeout
  | Completed
  | TimedOut
  | Failed error
  | Raised error

text \<open>
  The loop that waits for the SDK to load:
  \<^verbatim>\<open>while not loaded(): if time() - start_time > STEAMWORKS_TIMEOUT: return; sleep(...)\<close>.
  \<open>False\<close> is the \<^verbatim>\<open>return\<close> inside the loop.
\<close>

function load_loop :: "env \<Rightarrow> nat \<Rightarrow> world \<Rightarrow> world \<times> bool" where
  "load_loop e start_time w =
     (if sdk_loaded e (clock w) then (w, True)
      else if clock w - start_time > STEAMWORKS_TIMEOUT then (w, False)
      else load_loop e start_time (sleep e OPERATION_INTERVAL w))"
  by pat_completeness auto
termination
  by (relation "measure (\<lambda>(e, st, w). STEAMWORKS_TIMEOUT + st + 1 - clock w)")
     (auto simp: sleep_def act_def OPERATION_INTERVAL_def)

declare load_loop.simps [simp del]

text \<open>The \<^verbatim>\<open>try\<close> block of \<^verbatim>\<open>run\<close> with its \<^verbatim>\<open>except Exception\<close>.\<close>

definition staging :: "env \<Rightarrow> subscription_handler \<Rightarrow> world \<Rightarrow> world \<times> error option" where
  "staging e h w =
     (if action h = ''resubscribe'' then handle_resubscribe e h w
      else if action h = ''subscribe'' then handle_subscribe e h w
      else if action h = ''unsubscribe'' then handle_unsubscribe e h w
      else (w, None))"

definition guarded :: "env \<Rightarrow> subscription_handler \<Rightarrow> world \<Rightarrow> world \<times> outcome" where
  "guarded e h w =
     (case staging e h w of
        (w1, Some err) \<Rightarrow> (w1, Failed err)
      | (w1, None) \<Rightarrow>
          (case wait_for_callbacks e (int STEAMWORKS_TIMEOUT) w1 of
             (w2, Inl err) \<Rightarrow> (w2, Failed err)
           | (w2, Inr completed) \<Rightarrow> (w2, if completed then Completed else TimedOut)))"

text \<open>
  The \<^verbatim>\<open>finally\<close> block: join the thread if there is one alive, then unload. The SDK
  object itself is always truthy.
\<close>

definition cleanup :: "env \<Rightarrow> world \<Rightarrow> world \<times> error option" where
  "cleanup e w =
     sdk_call e Unload
       (if steamworks_thread (ifc w) = Some Alive then thread_join_timeout e 5000 w else w)"

text \<open>
  \<^verbatim>\<open>SteamworksSubscriptionHandler.run\<close>. The two early \<^verbatim>\<open>return\<close>s come before the
  \<^verbatim>\<open>try\<close>, so the \<^verbatim>\<open>finally\<close> block does not run for them.
\<close>

definition SteamworksSubscriptionHandler_run ::
  "env \<Rightarrow> subscription_handler \<Rightarrow> world \<times> outcome" where
  "SteamworksSubscriptionHandler_run e h =
     (let w0 = SteamworksInterface_init e True None in
      if steam_not_running (ifc w0)
      then (case sdk_call e Unload w0 of
              (w1, Some err) \<Rightarrow> (w1, Raised err)
            | (w1, None) \<Rightarrow> (w1, AbortedUnavailable))
      else (case load_loop e (clock w0) w0 of
              (w1, False) \<Rightarrow> (w1, AbortedLoadTimeout)
            | (w1, True) \<Rightarrow>
                (case guarded e h w1 of
                   (w2, out) \<Rightarrow>
                     (case cleanup e w2 of
                        (w3, Some err) \<Rightarrow> (w3, Raised err)
                      | (w3, None) \<Rightarrow> (w3, out)))))"

subsection \<open>The dependency query\<close>



subsection \<open>Vocabulary of the properties\<close>

text \<open>The per-item SDK calls: subscribe, unsubscribe and forced download.\<close>

fun is_item_call :: "event \<Rightarrow> bool" where
  "is_item_call (UnsubscribeItem i) = True"
| "is_item_call (SubscribeItem i) = True"
| "is_item_call (DownloadItem i) = True"
| "is_item_call _ = False"

definition item_calls :: "event list \<Rightarrow> event list" where
  "item_calls tr = filter is_item_call tr"



text \<open>An environment where nothing raises, the SDK is loaded and no callback arrives.\<close>

definition quiet_env :: env where
  "quiet_env = \<lparr>init_raises = False, call_raises = (\<lambda>tr. False),
                 sdk_loaded = (\<lambda>t. True), schedule = (\<lambda>k. [])\<rparr>"

text \<open>An environment where SDK initialisation raises.\<close>

definition down_env :: env where
  "down_env = \<lparr>init_raises = True, call_raises = (\<lambda>tr. False),
                sdk_loaded = (\<lambda>t. True), schedule = (\<lambda>k. [])\<rparr>"

text \<open>An environment where the SDK initialises and never reports loaded.\<close>

definition stuck_env :: env where
  "stuck_env = \<lparr>init_raises = False, call_raises = (\<lambda>tr. False),
                 sdk_loaded = (\<lambda>t. False), schedule = (\<lambda>k. [])\<rparr>"

text \<open>The stop flag is set.\<close>

definition stopped :: "world \<Rightarrow> bool" where
  "stopped w = (end_callbacks (ifc w) = Some True)"

text \<open>No notification kind is bound to the dependency-result handler.\<close>

definition no_dependency_handler :: "world \<Rightarrow> bool" where
  "no_dependency_handler w = (\<forall>k. registered w k \<noteq> Some AppDependenciesCallback)"

text \<open>No dependency-result handler is bound, and the stop flag has the given value.\<close>

definition callbacks_silent :: "bool option \<Rightarrow> world \<Rightarrow> bool" where
  "callbacks_silent b w = (no_dependency_handler w \<and> end_callbacks (ifc w) = b)"

text \<open>An environment where the poll thread dies during the first action after the session is opened.\<close>

definition crash_env :: env where
  "crash_env = \<lparr>init_raises = False, call_raises = (\<lambda>tr. False),
                 sdk_loaded = (\<lambda>t. True),
                 schedule = (\<lambda>k. if k = 1 then [Crash] else [])\<rparr>"

text \<open>A freshly opened session on which the waiter has timed out at once.\<close>

definition forced_world :: world where
  "forced_world = fst (wait_for_callbacks quiet_env 0 (SteamworksInterface_init quiet_env True None))"

text \<open>What ends the waiter's loop: the stop flag is set, or the poll thread is no longer alive.\<close>

definition stop_seen :: "world \<Rightarrow> bool" where
  "stop_seen w =
     (end_callbacks (ifc w) = Some True \<or> steamworks_thread (ifc w) = Some Finished)"

text \<open>The waiter's polls, in the words of the specification: the end of the loop is observed at one of the first \<open>k + 1\<close> polls, every earlier poll having found the timeout not yet elapsed. Polls are one \<^verbatim>\<open>OPERATION_INTERVAL\<close> sleep apart; \<open>st\<close> is the time the wait began.\<close>

fun observed_within :: "env \<Rightarrow> nat \<Rightarrow> int \<Rightarrow> nat \<Rightarrow> world \<Rightarrow> bool" where
  "observed_within e st t 0 w = stop_seen w"
| "observed_within e st t (Suc k) w =
     (stop_seen w \<or>
      (int (clock w) - int st < t \<and> observed_within e st t k (sleep e OPERATION_INTERVAL w)))"

text \<open>A session with callbacks enabled and a poll thread started.\<close>

definition polling :: "world \<Rightarrow> bool" where
  "polling w = (end_callbacks (ifc w) \<noteq> None \<and> steamworks_thread (ifc w) \<noteq> None)"

text \<open>A session whose poll thread died during the first sleep after opening, the stop flag still unset.\<close>

definition dead_world :: world where
  "dead_world = sleep crash_env OPERATION_INTERVAL (SteamworksInterface_init crash_env True None)"







section \<open>Facts about the model\<close>

subsection \<open>Traces and clocks\<close>

lemma dispatch_keeps:
  "trace (dispatch ds w) = trace w" "clock (dispatch ds w) = clock w"
  "registered (dispatch ds w) = registered w" "pumps (dispatch ds w) = pumps w"
  by (induction ds w rule: dispatch.induct) (auto split: option.splits)

lemma callbacks_loop_keeps:
  "trace (callbacks_loop rs w) = trace w" "clock (callbacks_loop rs w) = clock w"
  "registered (callbacks_loop rs w) = registered w"
  by (induction rs w rule: callbacks_loop.induct) (auto simp: dispatch_keeps split: round.splits)

lemma init_world [simp]:
  "trace (SteamworksInterface_init e cb n) = [Initialize]"
  "clock (SteamworksInterface_init e cb n) = 0"
  "registered (SteamworksInterface_init e cb n) = Map.empty"
  "pumps (SteamworksInterface_init e cb n) = 0"
  by (simp_all add: SteamworksInterface_init_def Let_def)

lemma act_trace [simp]: "trace (act e ev w) = trace w @ [ev]"
  by (simp add: act_def)

lemma act_clock [simp]: "clock (act e ev w) = clock w + duration ev"
  by (simp add: act_def)

lemma act_registered [simp]: "registered (act e ev w) = registered w"
  by (simp add: act_def callbacks_loop_keeps)

lemma sleep_trace [simp]: "trace (sleep e d w) = trace w @ [Sleep d]"
  by (simp add: sleep_def)

lemma sdk_call_trace [simp]: "trace (fst (sdk_call e ev w)) = trace w @ [ev]"
  by (simp add: sdk_call_def Let_def)

lemma sdk_call_snd: "snd (sdk_call e ev w) = (if call_raises e (trace w @ [ev]) then Some SdkError else None)"
  by (simp add: sdk_call_def Let_def)

lemma set_callback_trace [simp]: "trace (fst (set_callback e ev k h w)) = trace w @ [ev]"
  by (simp add: set_callback_def sdk_call_def Let_def)



lemma item_calls_append [simp]: "item_calls (a @ b) = item_calls a @ item_calls b"
  by (simp add: item_calls_def)

lemma item_calls_simps [simp]:
  "item_calls [] = []"
  "item_calls (ev # tr) = (if is_item_call ev then ev # item_calls tr else item_calls tr)"
  by (simp_all add: item_calls_def)








subsection \<open>The resubscribe stages\<close>




subsection \<open>Sessions, handlers and the load wait\<close>

lemma init_session:
  "steam_not_running (ifc (SteamworksInterface_init e cb n)) = init_raises e"
  "steamworks_thread (ifc (SteamworksInterface_init e cb n)) =
     (if init_raises e then None else if cb then Some Alive else None)"
  "end_callbacks (ifc (SteamworksInterface_init e cb n)) = (if cb then Some False else None)"
  "callbacks_count (ifc (SteamworksInterface_init e cb n)) = 0"
  "callbacks_total (ifc (SteamworksInterface_init e cb n)) = n"
  "get_app_deps_query_result (ifc (SteamworksInterface_init e cb n)) = Map.empty"
  "multiple_queries (ifc (SteamworksInterface_init e cb n)) =
     (if cb then Some (n \<noteq> None \<and> n \<noteq> Some 0) else None)"
  by (simp_all add: SteamworksInterface_init_def Let_def)

lemma create_callback_quiet: "snd (snd (create_callback operation args s)) = None"
  by (simp add: create_callback_def Let_def split: list.splits option.splits)

lemma create_download_callback_quiet: "snd (snd (create_download_callback args s)) = None"
  by (simp add: create_download_callback_def split: list.splits option.splits)

lemma load_loop_never_loaded:
  "\<forall>t. \<not> sdk_loaded e t \<Longrightarrow>
     snd (load_loop e st w) = False \<and>
     set (trace (fst (load_loop e st w))) \<subseteq> set (trace w) \<union> {Sleep OPERATION_INTERVAL}"
proof (induction e st w rule: load_loop.induct)
  case (1 e st w)
  show ?case
  proof (cases "clock w - st > STEAMWORKS_TIMEOUT")
    case True
    with "1.prems" show ?thesis by (subst (1 2) load_loop.simps) auto
  next
    case False
    with "1.prems" "1.IH" show ?thesis by (subst (1 2) load_loop.simps) auto
  qed
qed

subsection \<open>Invariants of the staging and the stop flag\<close>

lemma sdk_call_alt:
  "sdk_call e ev w =
     (act e ev w, if call_raises e (trace w @ [ev]) then Some SdkError else None)"
  by (simp add: sdk_call_def Let_def)

lemma set_callback_alt:
  "set_callback e ev k h w =
     (if call_raises e (trace w @ [ev]) then (act e ev w, Some SdkError)
      else ((act e ev w)\<lparr>registered := (registered w)(k \<mapsto> h)\<rparr>, None))"
  by (simp add: set_callback_def sdk_call_alt)

text \<open>Invariants of the staging: a property kept by every action of the main flow and
  by registering a handler other than the dependency handler is kept by the stages.\<close>

lemma register_callbacks_keeps:
  assumes a: "\<And>ev w. P w \<Longrightarrow> P (act e ev w)"
    and r: "\<And>w k h. h \<noteq> AppDependenciesCallback \<Longrightarrow> P w \<Longrightarrow>
              P (w\<lparr>registered := (registered w)(k \<mapsto> h)\<rparr>)"
    and p: "P w"
  shows "P (fst (register_callbacks e acts w))"
proof -
  have s: "P (fst (set_callback e ev k (GenericCallback operation) w'))" if "P w'" for ev k operation w'
    using a[OF that, of ev] r[of "GenericCallback operation" "act e ev w'" k]
    by (simp add: set_callback_alt)
  show ?thesis
    using p s by (auto simp: register_callbacks_def case_prod_beta split: option.splits)
qed

lemma queue_operations_loop_keeps:
  assumes a: "\<And>ev w. P w \<Longrightarrow> P (act e ev w)" and p: "P w"
  shows "P (fst (queue_operations_loop e operation n idx ps w))"
  using p
proof (induction ps arbitrary: idx w)
  case Nil
  then show ?case by simp
next
  case (Cons q ps)
  have s: "P (sleep e d w')" if "P w'" for d w'
    using a[OF that] by (simp add: sleep_def)
  from Cons.prems a[OF Cons.prems] show ?case
    by (auto simp: sdk_call_alt case_prod_beta intro!: Cons.IH s a split: option.splits)
qed

lemma download_loop_keeps:
  assumes a: "\<And>ev w. P w \<Longrightarrow> P (act e ev w)"
    and r: "\<And>w k h. h \<noteq> AppDependenciesCallback \<Longrightarrow> P w \<Longrightarrow>
              P (w\<lparr>registered := (registered w)(k \<mapsto> h)\<rparr>)"
    and p: "P w"
  shows "P (download_loop e ps w)"
  using p
proof (induction ps arbitrary: w)
  case Nil
  then show ?case by simp
next
  case (Cons q ps)
  from a[OF Cons.prems, of "DownloadItem q"] show ?case
    using r[of DownloadCallback "act e (DownloadItem q) w" ItemDownloaded]
    by (auto simp: sdk_call_alt intro!: Cons.IH)
qed

lemma staging_keeps:
  assumes a: "\<And>ev w. P w \<Longrightarrow> P (act e ev w)"
    and r: "\<And>w k h. h \<noteq> AppDependenciesCallback \<Longrightarrow> P w \<Longrightarrow>
              P (w\<lparr>registered := (registered w)(k \<mapsto> h)\<rparr>)"
    and p: "P w"
  shows "P (fst (staging e h w))"
proof -
  note reg = register_callbacks_keeps[of P e, OF a r]
  note q = queue_operations_loop_keeps[of P e, OF a]
  note d = download_loop_keeps[of P e, OF a r]
  have s: "P (sleep e t w')" if "P w'" for t w'
    using a[OF that] by (simp add: sleep_def)
  show ?thesis
    using p
    by (auto simp: staging_def handle_resubscribe_def handle_subscribe_def
        handle_unsubscribe_def queue_operations_def case_prod_beta
        intro!: reg q d s split: option.splits)
qed

lemma invoke_keeps_stop:
  "end_callbacks s = Some True \<Longrightarrow> end_callbacks (fst (invoke h args s)) = Some True"
  by (cases h)
     (auto simp: create_callback_def create_download_callback_def
        cb_app_dependencies_result_callback_def Let_def split: list.splits option.splits)

lemma invoke_leaves_flag:
  "h \<noteq> AppDependenciesCallback \<Longrightarrow>
     end_callbacks (fst (invoke h args s)) = end_callbacks s \<and>
     steamworks_thread (fst (invoke h args s)) = steamworks_thread s"
  by (cases h)
     (auto simp: create_callback_def create_download_callback_def Let_def
        split: list.splits option.splits)

lemma invoke_leaves_thread:
  "steamworks_thread (fst (invoke h args s)) = steamworks_thread s"
  by (cases h)
     (auto simp: create_callback_def create_download_callback_def
        cb_app_dependencies_result_callback_def Let_def split: list.splits option.splits)

lemma dispatch_leaves_thread:
  "steamworks_thread (ifc (dispatch ds w)) = steamworks_thread (ifc w)"
  by (induction ds w rule: dispatch.induct)
     (auto simp: invoke_leaves_thread split: option.splits)

lemma dispatch_leaves_flag:
  "no_dependency_handler w \<Longrightarrow> end_callbacks (ifc (dispatch ds w)) = end_callbacks (ifc w)"
proof (induction ds w rule: dispatch.induct)
  case (1 w)
  then show ?case by simp
next
  case (2 k args ds w)
  show ?case
  proof (cases "registered w k")
    case None
    with 2 show ?thesis by simp
  next
    case (Some h)
    with "2.prems" have h: "h \<noteq> AppDependenciesCallback"
      by (auto simp: no_dependency_handler_def)
    have "no_dependency_handler (w\<lparr>ifc := fst (invoke h args (ifc w))\<rparr>)"
      using "2.prems" by (simp add: no_dependency_handler_def)
    with "2.IH"(2)[OF Some] Some h show ?thesis by (simp add: invoke_leaves_flag)
  qed
qed

lemma callbacks_loop_leaves_flag:
  "no_dependency_handler w \<Longrightarrow>
     end_callbacks (ifc (callbacks_loop rs w)) = end_callbacks (ifc w)"
proof (induction rs w rule: callbacks_loop.induct)
  case (1 w)
  then show ?case by simp
next
  case (2 r rs w)
  show ?case
  proof (cases r)
    case Crash
    then show ?thesis by simp
  next
    case (Pump ds)
    have n: "no_dependency_handler (dispatch ds (w\<lparr>pumps := pumps w + 1\<rparr>))"
      using "2.prems" by (simp add: no_dependency_handler_def dispatch_keeps)
    have "end_callbacks (ifc (dispatch ds (w\<lparr>pumps := pumps w + 1\<rparr>))) = end_callbacks (ifc w)"
      using dispatch_leaves_flag[of "w\<lparr>pumps := pumps w + 1\<rparr>" ds] "2.prems"
      by (simp add: no_dependency_handler_def)
    with Pump "2.IH"[OF _ _ Pump n] show ?thesis by simp
  qed
qed

lemma dispatch_keeps_stop: "stopped w \<Longrightarrow> stopped (dispatch ds w)"
  by (induction ds w rule: dispatch.induct)
     (auto simp: stopped_def invoke_keeps_stop split: option.splits)











lemma act_leaves_flag:
  "no_dependency_handler w \<Longrightarrow> end_callbacks (ifc (act e ev w)) = end_callbacks (ifc w)"
  by (simp add: act_def callbacks_loop_leaves_flag)

lemma act_no_dependency_handler:
  "no_dependency_handler w \<Longrightarrow> no_dependency_handler (act e ev w)"
  by (simp add: no_dependency_handler_def)

lemma callbacks_loop_dead:
  "steamworks_thread (ifc w) \<noteq> Some Alive \<Longrightarrow> callbacks_loop rs w = w"
  by (cases rs) auto

lemma act_keeps_finished:
  "steamworks_thread (ifc w) = Some Finished \<Longrightarrow>
     steamworks_thread (ifc (act e ev w)) = Some Finished"
  by (simp add: act_def callbacks_loop_dead)

lemma load_loop_keeps:
  "(\<And>ev w. P w \<Longrightarrow> P (act e ev w)) \<Longrightarrow> P w \<Longrightarrow> P (fst (load_loop e st w))"
proof (induction e st w rule: load_loop.induct)
  case (1 e st w)
  have "P (sleep e OPERATION_INTERVAL w)"
    using "1.prems" by (simp add: sleep_def)
  with 1 show ?case by (subst load_loop.simps) auto
qed

lemma act_callbacks_silent: "callbacks_silent b w \<Longrightarrow> callbacks_silent b (act e ev w)"
  by (simp add: callbacks_silent_def act_leaves_flag act_no_dependency_handler)

lemma registered_callbacks_silent:
  "h \<noteq> AppDependenciesCallback \<Longrightarrow> callbacks_silent b w \<Longrightarrow>
     callbacks_silent b (w\<lparr>registered := (registered w)(k \<mapsto> h)\<rparr>)"
  by (simp add: callbacks_silent_def no_dependency_handler_def)

lemma staging_callbacks_silent:
  "callbacks_silent b w \<Longrightarrow> callbacks_silent b (fst (staging e h w))"
  by (rule staging_keeps[of "callbacks_silent b" e])
     (simp_all add: act_callbacks_silent registered_callbacks_silent)

lemma wait_loop_silent:
  "callbacks_silent (Some False) w \<Longrightarrow>
     no_dependency_handler (fst (wait_loop e st t w)) \<and>
     (snd (wait_loop e st t w) = Inr True \<longrightarrow>
        end_callbacks (ifc (fst (wait_loop e st t w))) = Some False \<and>
        steamworks_thread (ifc (fst (wait_loop e st t w))) = Some Finished) \<and>
     (snd (wait_loop e st t w) = Inr False \<longrightarrow>
        end_callbacks (ifc (fst (wait_loop e st t w))) = Some True)"
proof (induction e st t w rule: wait_loop.induct)
  case (1 e st t w)
  from "1.prems" have f: "end_callbacks (ifc w) = Some False" and n: "no_dependency_handler w"
    by (simp_all add: callbacks_silent_def)
  show ?case
  proof (cases "steamworks_thread (ifc w)")
    case None
    with f n show ?thesis by (subst (1 2 3 4 5 6) wait_loop.simps) simp
  next
    case (Some th)
    show ?thesis
    proof (cases th)
      case Finished
      with Some f n show ?thesis by (subst (1 2 3 4 5 6) wait_loop.simps) simp
    next
      case Alive
      show ?thesis
      proof (cases "int (clock w) - int st \<ge> t")
        case True
        with Alive Some f n show ?thesis
          by (subst (1 2 3 4 5 6) wait_loop.simps) (simp add: no_dependency_handler_def)
      next
        case False
        have s: "callbacks_silent (Some False) (sleep e OPERATION_INTERVAL w)"
          using "1.prems" by (simp add: sleep_def act_callbacks_silent)
        have eq: "wait_loop e st t w = wait_loop e st t (sleep e OPERATION_INTERVAL w)"
          using False Alive Some f by (subst wait_loop.simps) simp
        from "1.IH"[OF f _ Some Alive False s] show ?thesis
          unfolding eq by simp
      qed
    qed
  qed
qed

lemma thread_join_timeout_flag:
  "no_dependency_handler w \<Longrightarrow>
     end_callbacks (ifc (thread_join_timeout e d w)) = end_callbacks (ifc w) \<and>
     no_dependency_handler (thread_join_timeout e d w)"
  using act_leaves_flag[of w e ThreadJoin]
  by (simp add: thread_join_timeout_def Let_def no_dependency_handler_def)

lemma cleanup_flag:
  "no_dependency_handler w \<Longrightarrow>
     end_callbacks (ifc (fst (cleanup e w))) = end_callbacks (ifc w)"
  by (simp add: cleanup_def sdk_call_alt act_leaves_flag thread_join_timeout_flag)

lemma cleanup_finished:
  "steamworks_thread (ifc w) = Some Finished \<Longrightarrow>
     steamworks_thread (ifc (fst (cleanup e w))) = Some Finished"
  by (simp add: cleanup_def sdk_call_alt act_keeps_finished)

lemma init_callbacks_silent:
  "callbacks_silent (Some False) (SteamworksInterface_init e True n)"
  by (simp add: callbacks_silent_def no_dependency_handler_def init_session)

lemma run_completed_flag:
  assumes "snd (SteamworksSubscriptionHandler_run e h) = Completed"
  shows "end_callbacks (ifc (fst (SteamworksSubscriptionHandler_run e h))) = Some False \<and>
         steamworks_thread (ifc (fst (SteamworksSubscriptionHandler_run e h))) = Some Finished"
proof -
  let ?w0 = "SteamworksInterface_init e True None"
  let ?w1 = "fst (load_loop e (clock ?w0) ?w0)"
  let ?w2 = "fst (staging e h ?w1)"
  let ?r = "wait_loop e (clock ?w2) (int STEAMWORKS_TIMEOUT) ?w2"
  have s1: "callbacks_silent (Some False) ?w1"
    by (rule load_loop_keeps[of "callbacks_silent (Some False)" e])
       (simp_all add: act_callbacks_silent init_callbacks_silent)
  then have s2: "callbacks_silent (Some False) ?w2" by (rule staging_callbacks_silent)
  note w = wait_loop_silent[OF s2, of e "clock ?w2" "int STEAMWORKS_TIMEOUT"]
  from assms have c: "snd (staging e h ?w1) = None" "snd ?r = Inr True"
    and fin: "fst (SteamworksSubscriptionHandler_run e h) = fst (cleanup e (fst ?r))"
    by (auto simp: SteamworksSubscriptionHandler_run_def Let_def guarded_def
        wait_for_callbacks_def sdk_call_alt case_prod_beta
        split: if_splits option.splits sum.splits bool.splits)
  from w c show ?thesis unfolding fin by (simp add: cleanup_flag cleanup_finished)
qed

lemma run_timed_out_flag:
  assumes "snd (SteamworksSubscriptionHandler_run e h) = TimedOut"
  shows "end_callbacks (ifc (fst (SteamworksSubscriptionHandler_run e h))) = Some True"
proof -
  let ?w0 = "SteamworksInterface_init e True None"
  let ?w1 = "fst (load_loop e (clock ?w0) ?w0)"
  let ?w2 = "fst (staging e h ?w1)"
  let ?r = "wait_loop e (clock ?w2) (int STEAMWORKS_TIMEOUT) ?w2"
  have s1: "callbacks_silent (Some False) ?w1"
    by (rule load_loop_keeps[of "callbacks_silent (Some False)" e])
       (simp_all add: act_callbacks_silent init_callbacks_silent)
  then have s2: "callbacks_silent (Some False) ?w2" by (rule staging_callbacks_silent)
  note w = wait_loop_silent[OF s2, of e "clock ?w2" "int STEAMWORKS_TIMEOUT"]
  from assms have c: "snd (staging e h ?w1) = None" "snd ?r = Inr False"
    and fin: "fst (SteamworksSubscriptionHandler_run e h) = fst (cleanup e (fst ?r))"
    by (auto simp: SteamworksSubscriptionHandler_run_def Let_def guarded_def
        wait_for_callbacks_def sdk_call_alt case_prod_beta
        split: if_splits option.splits sum.splits bool.splits)
  from w c show ?thesis unfolding fin by (simp add: cleanup_flag)
qed




lemma forced_world_eq:
  "forced_world =
     (SteamworksInterface_init quiet_env True None)
       \<lparr>ifc := (ifc (SteamworksInterface_init quiet_env True None))\<lparr>end_callbacks := Some True\<rparr>\<rparr>"
  by (simp add: forced_world_def wait_for_callbacks_def wait_loop.simps init_session
      quiet_env_def)

lemma crash_run:
  "snd (SteamworksSubscriptionHandler_run crash_env
     \<lparr>action = ''subscribe'', pfid_or_pfids = [11], libs = None\<rparr>) = Completed"
  by (simp add: SteamworksSubscriptionHandler_run_def Let_def init_session crash_env_def
      load_loop.simps guarded_def staging_def handle_subscribe_def register_callbacks_def
      set_callback_alt queue_operations_def operation_map_def sdk_call_alt act_def
      wait_for_callbacks_def wait_loop.simps cleanup_def thread_join_timeout_def
      SteamworksInterface_init_def)

subsection \<open>The completion waiter\<close>

lemma invoke_keeps_flag_defined:
  "end_callbacks s \<noteq> None \<Longrightarrow> end_callbacks (fst (invoke h args s)) \<noteq> None"
  by (cases h)
     (auto simp: create_callback_def create_download_callback_def
        cb_app_dependencies_result_callback_def Let_def split: list.splits option.splits)

lemma dispatch_keeps_polling: "polling w \<Longrightarrow> polling (dispatch ds w)"
proof (induction ds w rule: dispatch.induct)
  case (1 w)
  then show ?case by simp
next
  case (2 k args ds w)
  show ?case
  proof (cases "registered w k")
    case None
    with 2 show ?thesis by simp
  next
    case (Some h)
    have "polling (w\<lparr>ifc := fst (invoke h args (ifc w))\<rparr>)"
      using "2.prems" invoke_keeps_flag_defined[of "ifc w" h args]
      by (simp add: polling_def invoke_leaves_thread del: not_None_eq)
    with "2.IH"(2)[OF Some] Some show ?thesis by simp
  qed
qed

lemma callbacks_loop_keeps_polling: "polling w \<Longrightarrow> polling (callbacks_loop rs w)"
proof (induction rs w rule: callbacks_loop.induct)
  case (1 w)
  then show ?case by simp
next
  case (2 r rs w)
  have fin: "polling (w\<lparr>ifc := (ifc w)\<lparr>steamworks_thread := Some Finished\<rparr>\<rparr>)"
    using "2.prems" by (simp add: polling_def del: not_None_eq)
  show ?case
  proof (cases r)
    case Crash
    with "2.prems" fin show ?thesis by simp
  next
    case (Pump ds)
    have "polling (dispatch ds (w\<lparr>pumps := pumps w + 1\<rparr>))"
      using "2.prems" by (intro dispatch_keeps_polling) (simp add: polling_def del: not_None_eq)
    with Pump "2.IH" "2.prems" fin show ?thesis by simp
  qed
qed

lemma act_keeps_polling: "polling w \<Longrightarrow> polling (act e ev w)"
  using callbacks_loop_keeps_polling[of w "schedule e (length (trace w))"]
  by (simp add: act_def polling_def del: not_None_eq)

lemma wait_loop_seen: "polling w \<Longrightarrow> stop_seen w \<Longrightarrow> wait_loop e st t w = (w, Inr True)"
  by (subst wait_loop.simps)
     (auto simp: polling_def stop_seen_def split: option.splits bool.splits thread.splits)

lemma wait_loop_outcome:
  "polling w \<Longrightarrow>
     (\<exists>w' r. wait_loop e st t w = (w', Inr r) \<and>
        (r \<longleftrightarrow> (\<exists>k. observed_within e st t k w)) \<and>
        polling w' \<and> stop_seen w' \<and>
        (\<not> r \<longrightarrow> end_callbacks (ifc w') = Some True \<and> t \<le> int (clock w') - int st))"
proof (induction e st t w rule: wait_loop.induct)
  case (1 e st t w)
  show ?case
  proof (cases "stop_seen w")
    case True
    have "observed_within e st t 0 w" using True by simp
    then have "\<exists>k. observed_within e st t k w" by blast
    with True "1.prems" wait_loop_seen[OF "1.prems" True, of e st t] show ?thesis by auto
  next
    case False
    with "1.prems" have f: "end_callbacks (ifc w) = Some False"
      and a: "steamworks_thread (ifc w) = Some Alive"
      by (auto simp: polling_def stop_seen_def intro: thread.exhaust)
    show ?thesis
    proof (cases "t \<le> int (clock w) - int st")
      case True
      have eq: "wait_loop e st t w = (w\<lparr>ifc := (ifc w)\<lparr>end_callbacks := Some True\<rparr>\<rparr>, Inr False)"
        using True f a by (subst wait_loop.simps) simp
      have "\<not> observed_within e st t k w" for k
        using False True by (cases k) simp_all
      with True a show ?thesis unfolding eq by (auto simp: polling_def stop_seen_def)
    next
      case late: False
      let ?w1 = "sleep e OPERATION_INTERVAL w"
      have eq: "wait_loop e st t w = wait_loop e st t ?w1"
        using late f a by (subst wait_loop.simps) simp
      have p1: "polling ?w1" using "1.prems" by (simp add: sleep_def act_keeps_polling)
      have iff: "(\<exists>k. observed_within e st t k w) \<longleftrightarrow> (\<exists>k. observed_within e st t k ?w1)"
      proof
        assume "\<exists>k. observed_within e st t k w"
        then obtain k where k: "observed_within e st t k w" ..
        with False obtain j where "k = Suc j" by (cases k) auto
        with k False show "\<exists>k. observed_within e st t k ?w1" by auto
      next
        assume "\<exists>k. observed_within e st t k ?w1"
        then obtain k where "observed_within e st t k ?w1" ..
        with late have "observed_within e st t (Suc k) w" by simp
        then show "\<exists>k. observed_within e st t k w" ..
      qed
      from late have l: "\<not> t \<le> int (clock w) - int st" .
      from "1.IH"[OF f refl a refl l p1] show ?thesis unfolding eq iff .
    qed
  qed
qed

lemma fresh_wait_times_out:
  "wait_for_callbacks quiet_env 0 (SteamworksInterface_init quiet_env True None) =
     (forced_world, Inr False)"
  by (simp add: forced_world_eq wait_for_callbacks_def wait_loop.simps init_session
      quiet_env_def)

lemma dead_world_eq:
  "dead_world =
     \<lparr>ifc = (ifc (SteamworksInterface_init crash_env True None))
               \<lparr>steamworks_thread := Some Finished\<rparr>,
      clock = 100, trace = [Initialize, Sleep 100], registered = Map.empty, pumps = 0\<rparr>"
  by (simp add: dead_world_def sleep_def act_def crash_env_def SteamworksInterface_init_def
      OPERATION_INTERVAL_def)

subsection \<open>The dependency query\<close>


























section \<open>Properties\<close>



text \<open>
  C2 (as amended). On a session with callbacks enabled and a started poll thread, the
  waiter returns true exactly when one of its polls, made before the timeout elapsed,
  found the stop flag set or the poll thread no longer alive. Otherwise it returns false,
  having set the stop flag itself, the timeout having elapsed. Either way a second call,
  with any timeout, returns true at once and changes nothing.
\<close>

theorem waiter_outcome:
  "end_callbacks (ifc w) \<noteq> None \<and> steamworks_thread (ifc w) \<noteq> None \<Longrightarrow>
     (\<exists>w' r. wait_for_callbacks e t w = (w', Inr r) \<and>
        (r \<longleftrightarrow> (\<exists>k. observed_within e (clock w) t k w)) \<and>
        (r \<longrightarrow> stop_seen w') \<and>
        (\<not> r \<longrightarrow> end_callbacks (ifc w') = Some True \<and> t \<le> int (clock w') - int (clock w)) \<and>
        (\<forall>t2. wait_for_callbacks e t2 w' = (w', Inr True)))"
proof -
  assume "end_callbacks (ifc w) \<noteq> None \<and> steamworks_thread (ifc w) \<noteq> None"
  then have p: "polling w" by (simp add: polling_def del: not_None_eq)
  from wait_loop_outcome[OF p, of e "clock w" t]
  obtain w' r where o: "wait_loop e (clock w) t w = (w', Inr r)"
    "r \<longleftrightarrow> (\<exists>k. observed_within e (clock w) t k w)"
    "polling w'" "stop_seen w'"
    "\<not> r \<longrightarrow> end_callbacks (ifc w') = Some True \<and> t \<le> int (clock w') - int (clock w)"
    by (elim exE conjE)
  have "wait_for_callbacks e t2 w' = (w', Inr True)" for t2
    using wait_loop_seen[OF o(3,4)] by (simp add: wait_for_callbacks_def)
  with o show ?thesis by (simp add: wait_for_callbacks_def)
qed

theorem waiter_outcome_witness:
  "end_callbacks (ifc (SteamworksInterface_init quiet_env True None)) \<noteq> None \<and>
   steamworks_thread (ifc (SteamworksInterface_init quiet_env True None)) \<noteq> None \<and>
   wait_for_callbacks quiet_env 0 (SteamworksInterface_init quiet_env True None) =
     (forced_world, Inr False) \<and>
   \<not> (\<exists>k. observed_within quiet_env 0 0 k (SteamworksInterface_init quiet_env True None)) \<and>
   end_callbacks (ifc forced_world) = Some True \<and>
   wait_for_callbacks quiet_env 30000 forced_world = (forced_world, Inr True)"
proof -
  let ?w = "SteamworksInterface_init quiet_env True None"
  have a: "end_callbacks (ifc ?w) \<noteq> None \<and> steamworks_thread (ifc ?w) \<noteq> None"
    by (simp add: init_session quiet_env_def)
  show ?thesis
    using a waiter_outcome[OF a, of quiet_env 0] fresh_wait_times_out
    by (auto simp del: not_None_eq)
qed

text \<open>
  C2 as stated fails: when the poll thread has died, the waiter returns true although
  the stop flag is unset, stays unset however long one polls, and is still unset when
  the waiter returns.
\<close>

theorem waiter_true_without_flag:
  "snd (wait_for_callbacks crash_env 30000 dead_world) = Inr True \<and>
   end_callbacks (ifc (fst (wait_for_callbacks crash_env 30000 dead_world))) = Some False \<and>
   \<not> (\<exists>k. end_callbacks (ifc ((sleep crash_env OPERATION_INTERVAL ^^ k) dead_world)) = Some True)"
proof -
  have d: "sleep crash_env OPERATION_INTERVAL w = w\<lparr>trace := trace w @ [Sleep 100], clock := clock w + 100\<rparr>"
    if "steamworks_thread (ifc w) = Some Finished" for w
    using that by (simp add: sleep_def act_def callbacks_loop_dead OPERATION_INTERVAL_def)
  have k: "end_callbacks (ifc ((sleep crash_env OPERATION_INTERVAL ^^ k) dead_world)) = Some False \<and>
           steamworks_thread (ifc ((sleep crash_env OPERATION_INTERVAL ^^ k) dead_world)) = Some Finished" for k
  proof (induction k)
    case 0
    show ?case by (simp add: dead_world_eq init_session)
  next
    case (Suc k)
    then show ?case by (simp add: d)
  qed
  have "wait_for_callbacks crash_env 30000 dead_world = (dead_world, Inr True)"
    by (simp add: wait_for_callbacks_def wait_loop.simps dead_world_eq init_session)
  moreover have "end_callbacks (ifc dead_world) = Some False"
    by (simp add: dead_world_eq init_session)
  ultimately show ?thesis using k by simp
qed



text \<open>
  C4. Constructing the subscription handler with an action other than subscribe,
  unsubscribe or resubscribe fails with ValueError; the constructor takes no session and
  no SDK state, so nothing of the SDK has been touched. With one of the three actions it
  succeeds, with the identifiers normalised to a list.
\<close>

theorem handler_init_validates:
  "SteamworksSubscriptionHandler_init a p l =
     (if a = ''subscribe'' \<or> a = ''unsubscribe'' \<or> a = ''resubscribe''
      then Inr \<lparr>action = a,
                pfid_or_pfids = (case p of Many ps \<Rightarrow> ps | Single i \<Rightarrow> [i]),
                libs = l\<rparr>
      else Inl ValueError)"
  unfolding SteamworksSubscriptionHandler_init_def valid_actions_def by auto

text \<open>
  C5. When SDK initialisation fails at session open, the run of the subscription handler
  issues \<^verbatim>\<open>unload()\<close> and nothing else: no subscribe, unsubscribe or forced-download
  call, whatever the action and the identifiers.
\<close>

theorem unavailable_issues_no_item_call:
  "init_raises e \<Longrightarrow>
     trace (fst (SteamworksSubscriptionHandler_run e h)) = [Initialize, Unload] \<and>
     item_calls (trace (fst (SteamworksSubscriptionHandler_run e h))) = []"
  by (simp add: SteamworksSubscriptionHandler_run_def Let_def init_session sdk_call_def
      split: prod.splits option.splits)

theorem unavailable_issues_no_item_call_witness:
  "init_raises down_env \<and>
   trace (fst (SteamworksSubscriptionHandler_run down_env
     \<lparr>action = ''resubscribe'', pfid_or_pfids = [11, 22, 33], libs = None\<rparr>)) =
     [Initialize, Unload]"
proof -
  have i: "init_raises down_env" by (simp add: down_env_def)
  show ?thesis
    using i unavailable_issues_no_item_call[OF i,
        of "\<lparr>action = ''resubscribe'', pfid_or_pfids = [11, 22, 33], libs = None\<rparr>"]
    by simp
qed


text \<open>
  C7. When the SDK initialised and never reports loaded, the run ends at the
  \<^verbatim>\<open>return\<close> inside the load wait. No subscribe, unsubscribe or forced-download call was
  issued; but that \<^verbatim>\<open>return\<close> comes before the \<^verbatim>\<open>try\<close>, so the \<^verbatim>\<open>finally\<close> block
  does not run: the SDK is not unloaded and the poll thread is not joined.
\<close>

theorem load_timeout_skips_cleanup:
  "\<not> init_raises e \<and> (\<forall>t. \<not> sdk_loaded e t) \<Longrightarrow>
     snd (SteamworksSubscriptionHandler_run e h) = AbortedLoadTimeout \<and>
     item_calls (trace (fst (SteamworksSubscriptionHandler_run e h))) = [] \<and>
     Unload \<notin> set (trace (fst (SteamworksSubscriptionHandler_run e h))) \<and>
     ThreadJoin \<notin> set (trace (fst (SteamworksSubscriptionHandler_run e h)))"
proof -
  assume a: "\<not> init_raises e \<and> (\<forall>t. \<not> sdk_loaded e t)"
  let ?w0 = "SteamworksInterface_init e True None"
  obtain w1 where l: "load_loop e (clock ?w0) ?w0 = (w1, False)"
    and t: "set (trace w1) \<subseteq> {Initialize, Sleep OPERATION_INTERVAL}"
    using load_loop_never_loaded[of e "clock ?w0" ?w0] a
    by (cases "load_loop e (clock ?w0) ?w0") auto
  from t have "item_calls (trace w1) = []"
    by (auto simp: item_calls_def filter_empty_conv)
  moreover from t have "Unload \<notin> set (trace w1)" "ThreadJoin \<notin> set (trace w1)" by auto
  ultimately show ?thesis using a l
    by (simp add: SteamworksSubscriptionHandler_run_def Let_def init_session)
qed

theorem load_timeout_skips_cleanup_witness:
  "\<not> init_raises stuck_env \<and> (\<forall>t. \<not> sdk_loaded stuck_env t) \<and>
   snd (SteamworksSubscriptionHandler_run stuck_env
     \<lparr>action = ''subscribe'', pfid_or_pfids = [11], libs = None\<rparr>) = AbortedLoadTimeout \<and>
   Unload \<notin> set (trace (fst (SteamworksSubscriptionHandler_run stuck_env
     \<lparr>action = ''subscribe'', pfid_or_pfids = [11], libs = None\<rparr>)))"
proof -
  have a: "\<not> init_raises stuck_env \<and> (\<forall>t. \<not> sdk_loaded stuck_env t)"
    by (simp add: stuck_env_def)
  show ?thesis
    using a load_timeout_skips_cleanup[OF a,
        of "\<lparr>action = ''subscribe'', pfid_or_pfids = [11], libs = None\<rparr>"]
    by simp
qed




text \<open>
  C9. The dependency-result handler reads \<^verbatim>\<open>args[0]\<close>, its result code, its item
  identifier and its dependency list without a guard: called with no positional argument
  it raises IndexError, and with a payload that lacks the result code it raises
  AttributeError, after the counter was incremented. The subscribe, unsubscribe and
  forced-download handlers do not raise on the same inputs.
\<close>

theorem app_dependencies_callback_raises:
  "cb_app_dependencies_result_callback [] s =
     (s\<lparr>callbacks_count := callbacks_count s + 1\<rparr>, [], Some IndexError) \<and>
   cb_app_dependencies_result_callback
     [\<lparr>publishedFileId = Some 10, result = None, app_dependencies = Some [20]\<rparr>] s =
     (s\<lparr>callbacks_count := callbacks_count s + 1\<rparr>, [], Some AttributeError) \<and>
   snd (snd (create_callback operation [] s)) = None \<and>
   snd (snd (create_download_callback [] s)) = None"
  by (simp add: cb_app_dependencies_result_callback_def Let_def create_callback_quiet
      create_download_callback_quiet)

text \<open>
  C10 (as amended). The handlers that a subscribe, unsubscribe or resubscribe run
  registers only count and log: they never touch the stop flag. So a run whose wait
  returns true ends with the flag still unset and the poll thread dead, and a run whose
  wait times out is the only one that ends with the flag set, by the waiter itself.
\<close>

theorem subscription_callbacks_never_stop:
  "end_callbacks (fst (create_callback operation args s)) = end_callbacks s \<and>
   end_callbacks (fst (create_download_callback args s)) = end_callbacks s \<and>
   (snd (SteamworksSubscriptionHandler_run e h) = Completed \<longrightarrow>
      end_callbacks (ifc (fst (SteamworksSubscriptionHandler_run e h))) = Some False \<and>
      steamworks_thread (ifc (fst (SteamworksSubscriptionHandler_run e h))) = Some Finished) \<and>
   (snd (SteamworksSubscriptionHandler_run e h) = TimedOut \<longrightarrow>
      end_callbacks (ifc (fst (SteamworksSubscriptionHandler_run e h))) = Some True)"
  using invoke_leaves_flag[of "GenericCallback operation" args s]
    invoke_leaves_flag[of DownloadCallback args s]
    run_completed_flag[of e h] run_timed_out_flag[of e h]
  by simp

theorem subscription_callbacks_never_stop_witness:
  "snd (SteamworksSubscriptionHandler_run crash_env
     \<lparr>action = ''subscribe'', pfid_or_pfids = [11], libs = None\<rparr>) = Completed \<and>
   end_callbacks (ifc (fst (SteamworksSubscriptionHandler_run crash_env
     \<lparr>action = ''subscribe'', pfid_or_pfids = [11], libs = None\<rparr>))) = Some False \<and>
   steamworks_thread (ifc (fst (SteamworksSubscriptionHandler_run crash_env
     \<lparr>action = ''subscribe'', pfid_or_pfids = [11], libs = None\<rparr>))) = Some Finished"
  using crash_run subscription_callbacks_never_stop
    [of _ _ _ crash_env "\<lparr>action = ''subscribe'', pfid_or_pfids = [11], libs = None\<rparr>"]
  by simp

text \<open>
  C10 as stated fails: no run of the subscription handler ends its wait with the stop
  flag set by a callback.
\<close>

theorem completed_by_callback_unreachable:
  "\<not> (\<exists>e h. snd (SteamworksSubscriptionHandler_run e h) = Completed \<and>
        end_callbacks (ifc (fst (SteamworksSubscriptionHandler_run e h))) = Some True)"
  using run_completed_flag by fastforce

end
